theory Spec2Isabelle
  imports Main "HOL-Library.Word"
begin

section \<open>Data model\<close>

text \<open>
  Go's \<open>uint64\<close> is a 64-bit word: \<open>+\<close>, \<open>-\<close> and \<open>*\<close> wrap modulo \<open>2 ^ 64\<close>.
  Go's \<open>int\<close> (the pid of the /proc based sampler) is 64 bits wide on the platforms
  the tool runs on; \<open>int32\<close> is the pid type of the gopsutil based sampler.
\<close>

type_synonym uint64 = "64 word"
type_synonym pid = "64 word"
type_synonym pid32 = "32 word"

text \<open>
  Every \<open>panic\<close> of the source, and the run-time panics of Go that the source can
  trigger (integer division by zero, indexing an empty slice), is a value.
\<close>

datatype panic =
    PanicErr
  | PanicCouldntParse string
  | PanicUnrecognizedSizeLabel string
  | PanicFailedToReadTotalTime
  | PanicDivideByZero
  | PanicIndexOutOfRange

section \<open>The Go library functions the sampler calls\<close>

text \<open>
  Go strings are byte sequences; \<open>string\<close> is a list of bytes. The white space of
  \<open>strings.TrimSpace\<close> and of the \<open>fmt\<close> scanner is modelled on its ASCII part
  (tab, line feed, vertical tab, form feed, carriage return, space), which is all that the
  kernel's text interface emits.
\<close>

definition isSpace :: "char \<Rightarrow> bool" where
  "isSpace c = (c \<in> set [CHR 0x09, CHR 0x0A, CHR 0x0B, CHR 0x0C, CHR 0x0D, CHR '' ''])"

definition isDigit :: "char \<Rightarrow> bool" where
  "isDigit c = (c \<in> set ''0123456789'')"

definition digit_val :: "char \<Rightarrow> nat" where
  "digit_val c = of_char c - 48"

definition parse_nat :: "string \<Rightarrow> nat" where
  "parse_nat ds = foldl (\<lambda>acc c. 10 * acc + digit_val c) 0 ds"

text \<open>
  \<open>strconv.ParseUint(s, 10, 64)\<close>: \<open>None\<close> stands for a non-nil error (empty input,
  a byte that is not a decimal digit, or a value that does not fit 64 bits).
\<close>

definition ParseUint :: "string \<Rightarrow> uint64 option" where
  "ParseUint s =
     (if s = [] \<or> \<not> list_all isDigit s then None
      else if parse_nat s < 2 ^ 64 then Some (of_nat (parse_nat s))
      else None)"

text \<open>\<open>strings.TrimSpace\<close>.\<close>

definition TrimSpace :: "string \<Rightarrow> string" where
  "TrimSpace s = rev (dropWhile isSpace (rev (dropWhile isSpace s)))"

text \<open>
  \<open>strings.Split(s, sep)\<close> for a separator of one byte, which is what every call of the
  source passes: the pieces between the separators, one more than there are separators.
\<close>

fun Split :: "string \<Rightarrow> char \<Rightarrow> string list" where
  "Split [] sep = [[]]"
| "Split (c # cs) sep =
     (if c = sep then [] # Split cs sep
      else (case Split cs sep of [] \<Rightarrow> [[c]] | p # ps \<Rightarrow> (c # p) # ps))"

text \<open>\<open>strings.HasPrefix\<close>.\<close>

definition HasPrefix :: "string \<Rightarrow> string \<Rightarrow> bool" where
  "HasPrefix s pre = (take (length pre) s = pre)"

subsection \<open>Decimal rendering: \<open>strconv.FormatUint(x, 10)\<close>\<close>

definition digit_char :: "nat \<Rightarrow> char" where
  "digit_char d = ''0123456789'' ! d"

function format_nat :: "nat \<Rightarrow> string" where
  "format_nat n = (if n < 10 then [digit_char n] else format_nat (n div 10) @ [digit_char (n mod 10)])"
  by pat_completeness auto
termination
  by (relation "measure (\<lambda>n. n)") auto

declare format_nat.simps [simp del]

definition FormatUint :: "uint64 \<Rightarrow> string" where
  "FormatUint x = format_nat (unat x)"

subsection \<open>\<open>fmt.Sscanf\<close> with a format of the shape \<open>%d\<close> followed by literal text\<close>

text \<open>
  \<open>fmt.Sscanf(str, "%d" + lit, &num)\<close> with \<open>num\<close> a \<open>uint64\<close>. The scanner works
  through the format from left to right and counts the operands it has stored; the count is
  returned together with the error, also when a later part of the format fails.

  For the verb it skips leading white space (a line feed is an error outside the line-based
  scan functions), reads the longest run of decimal digits, which must not be empty, converts
  it with \<open>ParseUint\<close>, stores the value and increments the count.
\<close>

fun SkipSpace :: "string \<Rightarrow> string option" where
  "SkipSpace [] = Some []"
| "SkipSpace (c # cs) =
     (if c = CHR 0x0D \<and> HasPrefix cs [CHR 0x0A] then SkipSpace cs
      else if c = CHR 0x0A then None
      else if isSpace c then SkipSpace cs
      else Some (c # cs))"

definition scanUint :: "string \<Rightarrow> (uint64 \<times> string) option" where
  "scanUint inp =
     (case SkipSpace inp of
        None \<Rightarrow> None
      | Some r \<Rightarrow>
          (let tok = takeWhile isDigit r in
           if tok = [] then None
           else (case ParseUint tok of
                   None \<Rightarrow> None
                 | Some v \<Rightarrow> Some (v, dropWhile isDigit r))))"

text \<open>
  The literal text after the verb: a space of the format matches one or more spaces of the
  input, or its end; any other byte of the format matches itself. Input left over when the
  format is used up is not an error. \<open>advance\<close> tells whether the text matched.
\<close>

fun advance :: "string \<Rightarrow> string \<Rightarrow> bool" where
  "advance [] inp = True"
| "advance (f # fmt) [] = (isSpace f \<and> advance fmt [])"
| "advance (f # fmt) (c # cs) =
     (if isSpace f then
        (isSpace c \<and> c \<noteq> CHR 0x0A \<and>
         advance fmt (dropWhile (\<lambda>x. isSpace x \<and> x \<noteq> CHR 0x0A) cs))
      else (f = c \<and> advance fmt cs))"

text \<open>
  The result is the count of stored operands, whether the error is non-nil, and the content
  of \<open>num\<close> afterwards (unchanged when the verb failed).
\<close>

definition Sscanf_d :: "string \<Rightarrow> string \<Rightarrow> uint64 \<Rightarrow> nat \<times> bool \<times> uint64" where
  "Sscanf_d str lit num =
     (case scanUint str of
        None \<Rightarrow> (0, True, num)
      | Some (v, rest) \<Rightarrow> (1, \<not> advance lit rest, v))"

section \<open>Sizes: \<open>formatSize\<close> and \<open>parseLabeledSize\<close>\<close>

definition formatSize :: "uint64 \<Rightarrow> string" where
  "formatSize sz =
     (if sz > 1024 * 1024 * 1024 then FormatUint (sz div (1024 * 1024 * 1024)) @ '' gB''
      else if sz > 1024 * 1024 then FormatUint (sz div (1024 * 1024)) @ '' mB''
      else if sz > 1024 then FormatUint (sz div 1024) @ '' kB''
      else FormatUint sz @ '' B'')"

text \<open>
  The errors of \<open>Sscanf\<close> are discarded by the source (\<open>i, _ := ...\<close>); only the
  count decides.
\<close>

definition parseLabeledSize :: "string \<Rightarrow> panic + uint64" where
  "parseLabeledSize sz =
     (let num = 0;
          (i, err, num) = Sscanf_d sz '' B'' num in
      if i = 1 then Inr num
      else
        let (i, err, num) = Sscanf_d sz '' kB'' num in
        if i = 1 then Inr (num * 1024)
        else
          let (i, err, num) = Sscanf_d sz '' mB'' num in
          if i = 1 then Inr (num * 1024 * 1024)
          else
            let (i, err, num) = Sscanf_d sz '' gB'' num in
            if i = 1 then Inr (num * 1024 * 1024 * 1024)
            else Inl (PanicUnrecognizedSizeLabel sz))"

section \<open>The /proc based sampler\<close>

subsection \<open>\<open>ProcessStatus\<close> and the CPU percentage\<close>

record ProcessStatus =
  Pid :: pid
  Name :: string
  FDSize :: uint64
  VmPeak :: uint64
  VmSize :: uint64
  VmHWM :: uint64
  VmRSS :: uint64
  Threads :: uint64
  Utime :: uint64
  LastUtime :: uint64
  Stime :: uint64
  LastStime :: uint64
  TimeTotal :: uint64
  LastTimeTotal :: uint64

text \<open>The zero value of the struct (\<open>var lastStatus ProcessStatus\<close>).\<close>

definition zeroStatus :: ProcessStatus where
  "zeroStatus =
     \<lparr>Pid = 0, Name = [], FDSize = 0, VmPeak = 0, VmSize = 0, VmHWM = 0, VmRSS = 0,
      Threads = 0, Utime = 0, LastUtime = 0, Stime = 0, LastStime = 0, TimeTotal = 0,
      LastTimeTotal = 0\<rparr>"

text \<open>
  \<open>100 * (ps.Utime - ps.LastUtime) / (ps.TimeTotal - ps.LastTimeTotal)\<close> on \<open>uint64\<close>:
  the subtractions and the product wrap, the division truncates, and a zero divisor is Go's
  run-time panic "integer divide by zero".
\<close>

definition GetCPUUsageUser :: "ProcessStatus \<Rightarrow> panic + uint64" where
  "GetCPUUsageUser ps =
     (if TimeTotal ps - LastTimeTotal ps = 0 then Inl PanicDivideByZero
      else Inr (100 * (Utime ps - LastUtime ps) div (TimeTotal ps - LastTimeTotal ps)))"

definition GetCPUUsageKernel :: "ProcessStatus \<Rightarrow> panic + uint64" where
  "GetCPUUsageKernel ps =
     (if TimeTotal ps - LastTimeTotal ps = 0 then Inl PanicDivideByZero
      else Inr (100 * (Stime ps - LastStime ps) div (TimeTotal ps - LastTimeTotal ps)))"

subsection \<open>The kernel interface as seen during one tick\<close>

text \<open>
  What the reads of one tick return: the content of \<open>/proc/<pid>/status\<close> and of
  \<open>/proc/<pid>/stat\<close> (\<open>None\<close> when \<open>ioutil.ReadFile\<close> fails, as it does for a process
  that has exited), the content of \<open>/proc/stat\<close>, and for \<open>pgrep -P <pid>\<close> its output
  together with whether the command returned an error (\<open>pgrep\<close> exits with status 1 when
  nothing matched).
\<close>

record proc_env =
  status_file :: "pid \<Rightarrow> string option"
  stat_file :: "pid \<Rightarrow> string option"
  proc_stat :: "string option"
  pgrep :: "pid \<Rightarrow> string \<times> bool"

subsection \<open>\<open>getProcStatus\<close>\<close>

text \<open>
  The loop over \<open>lastStatuses\<close> has no \<open>break\<close>: the last entry with the pid wins, and
  the zero value stays when there is none.
\<close>

definition lastStatusOf :: "pid \<Rightarrow> ProcessStatus list \<Rightarrow> ProcessStatus" where
  "lastStatusOf p lastStatuses =
     foldl (\<lambda>lastStatus s. if Pid s = p then s else lastStatus) zeroStatus lastStatuses"

text \<open>The body of the loop over the lines of \<open>/proc/<pid>/status\<close>.\<close>

definition parseStatusLine :: "ProcessStatus \<Rightarrow> string \<Rightarrow> panic + ProcessStatus" where
  "parseStatusLine status line =
     (if line = [] then Inr status
      else
        let tokens = Split line CHR '':'' in
        if length tokens \<noteq> 2 then Inl (PanicCouldntParse line)
        else
          let key = TrimSpace (tokens ! 0); val = TrimSpace (tokens ! 1) in
          if key = ''Name'' then Inr (status\<lparr>Name := val\<rparr>)
          else if key = ''FDSize'' then
            (case ParseUint val of None \<Rightarrow> Inl PanicErr | Some v \<Rightarrow> Inr (status\<lparr>FDSize := v\<rparr>))
          else if key = ''VmPeak'' then
            (case parseLabeledSize val of Inl e \<Rightarrow> Inl e | Inr v \<Rightarrow> Inr (status\<lparr>VmPeak := v\<rparr>))
          else if key = ''VmSize'' then
            (case parseLabeledSize val of Inl e \<Rightarrow> Inl e | Inr v \<Rightarrow> Inr (status\<lparr>VmSize := v\<rparr>))
          else if key = ''VmHWM'' then
            (case parseLabeledSize val of Inl e \<Rightarrow> Inl e | Inr v \<Rightarrow> Inr (status\<lparr>VmHWM := v\<rparr>))
          else if key = ''VmRSS'' then
            (case parseLabeledSize val of Inl e \<Rightarrow> Inl e | Inr v \<Rightarrow> Inr (status\<lparr>VmRSS := v\<rparr>))
          else if key = ''Threads'' then
            (case ParseUint val of None \<Rightarrow> Inl PanicErr | Some v \<Rightarrow> Inr (status\<lparr>Threads := v\<rparr>))
          else Inr status)"

fun parseStatusLines :: "ProcessStatus \<Rightarrow> string list \<Rightarrow> panic + ProcessStatus" where
  "parseStatusLines status [] = Inr status"
| "parseStatusLines status (line # lines) =
     (case parseStatusLine status line of
        Inl e \<Rightarrow> Inl e
      | Inr status' \<Rightarrow> parseStatusLines status' lines)"

text \<open>
  The total of \<open>/proc/stat\<close>: on every line that starts with \<open>cpu\<close> and a space, each
  piece between tabs and spaces that parses as a number is added; the others are skipped.
\<close>

definition addLine :: "uint64 \<Rightarrow> string \<Rightarrow> uint64" where
  "addLine tot line =
     foldl (\<lambda>t token.
              foldl (\<lambda>t tok. case ParseUint tok of None \<Rightarrow> t | Some num \<Rightarrow> t + num)
                t (Split token CHR '' ''))
       tot (Split line CHR 0x09)"

definition readTimeTotal :: "uint64 \<Rightarrow> string list \<Rightarrow> uint64" where
  "readTimeTotal tot lines =
     foldl (\<lambda>t line. if HasPrefix line ''cpu '' then addLine t line else t) tot lines"

definition getProcStatus :: "proc_env \<Rightarrow> pid \<Rightarrow> ProcessStatus list \<Rightarrow> panic + ProcessStatus" where
  "getProcStatus env p lastStatuses =
     (let lastStatus = lastStatusOf p lastStatuses;
          status = zeroStatus\<lparr>Pid := p, LastUtime := Utime lastStatus,
                     LastStime := Stime lastStatus, LastTimeTotal := TimeTotal lastStatus\<rparr>
      in
      case status_file env p of
        None \<Rightarrow> Inl PanicErr
      | Some blob \<Rightarrow>
          (case parseStatusLines status (Split blob CHR 0x0A) of
             Inl e \<Rightarrow> Inl e
           | Inr status \<Rightarrow>
               (case proc_stat env of
                  None \<Rightarrow> Inl PanicErr
                | Some blob \<Rightarrow>
                    let status = status\<lparr>TimeTotal :=
                                   readTimeTotal (TimeTotal status) (Split blob CHR 0x0A)\<rparr>
                    in
                    if TimeTotal status = 0 then Inl PanicFailedToReadTotalTime
                    else
                      (case stat_file env p of
                         None \<Rightarrow> Inl PanicErr
                       | Some blob \<Rightarrow>
                           let tokens = Split blob CHR '' '' in
                           if length tokens < 15 then Inl (PanicCouldntParse blob)
                           else
                             (case ParseUint (tokens ! 13) of
                                None \<Rightarrow> Inl PanicErr
                              | Some ut \<Rightarrow>
                                  (case ParseUint (tokens ! 14) of
                                     None \<Rightarrow> Inl PanicErr
                                   | Some st \<Rightarrow> Inr (status\<lparr>Utime := ut, Stime := st\<rparr>)))))))"

subsection \<open>\<open>getChildrenPids\<close>\<close>

text \<open>
  \<open>strconv.Atoi\<close> for a 64-bit \<open>int\<close>: an optional sign and decimal digits, in range.
\<close>

definition Atoi :: "string \<Rightarrow> pid option" where
  "Atoi s =
     (let (neg, ds) =
            (case s of
               [] \<Rightarrow> (False, [])
             | c # r \<Rightarrow>
                 if c = CHR ''-'' then (True, r)
                 else if c = CHR ''+'' then (False, r)
                 else (False, s))
      in
      if ds = [] \<or> \<not> list_all isDigit ds then None
      else if neg then (if parse_nat ds \<le> 2 ^ 63 then Some (- of_nat (parse_nat ds)) else None)
      else (if parse_nat ds < 2 ^ 63 then Some (of_nat (parse_nat ds)) else None))"

fun parsePids :: "pid list \<Rightarrow> string list \<Rightarrow> panic + pid list" where
  "parsePids pids [] = Inr pids"
| "parsePids pids (str # pidStrings) =
     (if str = [] then parsePids pids pidStrings
      else
        (case Atoi str of
           None \<Rightarrow> Inl PanicErr
         | Some childPid \<Rightarrow> parsePids (pids @ [childPid]) pidStrings))"

definition getChildrenPids :: "proc_env \<Rightarrow> pid \<Rightarrow> panic + pid list" where
  "getChildrenPids env p =
     (let (blob, err) = pgrep env p in
      if blob = [] then Inr []
      else if err then Inl PanicErr
      else parsePids [] (Split blob CHR 0x0A))"

subsection \<open>\<open>getUsage\<close>: the recursive walk\<close>

text \<open>
  \<open>getUsage\<close> calls itself for every child that \<open>pgrep\<close> reports and has no other bound,
  so the walk does not return when the reports form a cycle. The first argument bounds the
  depth of the recursion; \<open>None\<close> says that the bound was reached. A panic anywhere ends
  the walk.
\<close>

fun getUsage :: "nat \<Rightarrow> proc_env \<Rightarrow> pid \<Rightarrow> ProcessStatus list \<Rightarrow> (panic + ProcessStatus list) option"
  and getUsage_children ::
    "nat \<Rightarrow> proc_env \<Rightarrow> pid list \<Rightarrow> ProcessStatus list \<Rightarrow> ProcessStatus list \<Rightarrow>
       (panic + ProcessStatus list) option"
where
  "getUsage 0 env p lastStatuses = None"
| "getUsage (Suc depth) env p lastStatuses =
     (case getProcStatus env p lastStatuses of
        Inl e \<Rightarrow> Some (Inl e)
      | Inr status \<Rightarrow>
          (case getChildrenPids env p of
             Inl e \<Rightarrow> Some (Inl e)
           | Inr children \<Rightarrow>
               (case getUsage_children depth env children lastStatuses [] of
                  None \<Rightarrow> None
                | Some (Inl e) \<Rightarrow> Some (Inl e)
                | Some (Inr childrenStatuses) \<Rightarrow> Some (Inr (status # childrenStatuses)))))"
| "getUsage_children depth env [] lastStatuses childrenStatuses = Some (Inr childrenStatuses)"
| "getUsage_children depth env (child # children) lastStatuses childrenStatuses =
     (case getUsage depth env child lastStatuses of
        None \<Rightarrow> None
      | Some (Inl e) \<Rightarrow> Some (Inl e)
      | Some (Inr ss) \<Rightarrow>
          getUsage_children depth env children lastStatuses (childrenStatuses @ ss))"

subsection \<open>\<open>runRktMonitor\<close>: the sampling loop and the report\<close>

text \<open>
  \<open>usages[process.Pid] = append(usages[process.Pid], process)\<close>: a key that is absent
  reads as the nil slice.
\<close>

type_synonym usages = "pid \<rightharpoonup> ProcessStatus list"

definition appendUsage :: "usages \<Rightarrow> ProcessStatus \<Rightarrow> usages" where
  "appendUsage usages process =
     usages(Pid process \<mapsto> (case usages (Pid process) of None \<Rightarrow> [] | Some h \<Rightarrow> h) @ [process])"

definition recordUsage :: "usages \<Rightarrow> ProcessStatus list \<Rightarrow> usages" where
  "recordUsage usages usage = foldl appendUsage usages usage"

text \<open>
  The loop runs once per second until the duration is over; the list gives the state of the
  kernel interface at each of its ticks. \<open>usage\<close> is carried from one tick to the next as
  \<open>lastStatuses\<close>. A panic ends the program, so nothing is reported then.
\<close>

fun runTicks ::
  "nat \<Rightarrow> pid \<Rightarrow> proc_env list \<Rightarrow> ProcessStatus list \<Rightarrow> usages \<Rightarrow>
     (panic + ProcessStatus list \<times> usages) option"
where
  "runTicks depth root [] usage usages = Some (Inr (usage, usages))"
| "runTicks depth root (env # envs) usage usages =
     (case getUsage depth env root usage of
        None \<Rightarrow> None
      | Some (Inl e) \<Rightarrow> Some (Inl e)
      | Some (Inr usage') \<Rightarrow> runTicks depth root envs usage' (recordUsage usages usage'))"

text \<open>The loop over one history that adds up the percentages and the memory sizes.\<close>

fun accumulate ::
  "uint64 \<times> uint64 \<times> uint64 \<Rightarrow> ProcessStatus list \<Rightarrow> panic + uint64 \<times> uint64 \<times> uint64"
where
  "accumulate acc [] = Inr acc"
| "accumulate (avgCPU, avgMem, peakMem) (process # processHistory) =
     (case GetCPUUsageUser process of
        Inl e \<Rightarrow> Inl e
      | Inr c \<Rightarrow>
          accumulate
            (avgCPU + c, avgMem + VmSize process,
             if peakMem < VmPeak process then VmPeak process else peakMem)
            processHistory)"

text \<open>
  What the report prints for one history: name and pid of its first entry, its length, the
  average percentage, and the rendered average and peak memory. The length of a Go slice is
  below \<open>2 ^ 63\<close>, so \<open>uint64(len(processHistory))\<close> is zero exactly for the empty slice.
\<close>

record summary =
  sumName :: string
  sumPid :: pid
  secondsAlive :: nat
  avgCPU :: uint64
  avgMem :: string
  peakMem :: string

definition summarize :: "ProcessStatus list \<Rightarrow> panic + summary" where
  "summarize processHistory =
     (case accumulate (0, 0, 0) processHistory of
        Inl e \<Rightarrow> Inl e
      | Inr (cpu, mem, peak) \<Rightarrow>
          if length processHistory = 0 then Inl PanicDivideByZero
          else
            Inr \<lparr>sumName = Name (hd processHistory), sumPid = Pid (hd processHistory),
                 secondsAlive = length processHistory,
                 avgCPU = cpu div of_nat (length processHistory),
                 avgMem = formatSize (mem div of_nat (length processHistory)),
                 peakMem = formatSize peak\<rparr>)"

section \<open>Example states of the kernel interface\<close>

text \<open>
  One process, pid 7, without children: its status file, its stat line with the given user
  and kernel tick counts, and a \<open>/proc/stat\<close> whose aggregate line sums to the given
  total. \<open>snapshot\<close> is the \<open>ProcessStatus\<close> that \<open>getProcStatus\<close> builds from such
  a state.
\<close>

definition status_blob :: string where
  "status_blob =
     ''Name:'' @ [CHR 0x09] @ ''x'' @ [CHR 0x0A] @
     ''VmSize:'' @ [CHR 0x09] @ ''  2048 kB'' @ [CHR 0x0A]"

definition stat_blob :: "string \<Rightarrow> string \<Rightarrow> string" where
  "stat_blob ut st = ''7 (x) S 1 7 7 0 -1 4194304 100 0 0 0 '' @ ut @ '' '' @ st @ '' 0 0 20''"

definition cpu_blob :: "string \<Rightarrow> string" where
  "cpu_blob n = ''cpu  '' @ n @ '' 0 0'' @ [CHR 0x0A] @ ''cpu0 5 5 5'' @ [CHR 0x0A]"

definition env_one :: "string \<Rightarrow> string \<Rightarrow> string \<Rightarrow> proc_env" where
  "env_one ut st tot =
     \<lparr>status_file = (\<lambda>p. if p = 7 then Some status_blob else None),
      stat_file = (\<lambda>p. if p = 7 then Some (stat_blob ut st) else None),
      proc_stat = Some (cpu_blob tot),
      pgrep = (\<lambda>p. ([], True))\<rparr>"

definition snapshot :: "uint64 \<Rightarrow> uint64 \<Rightarrow> uint64 \<Rightarrow> uint64 \<Rightarrow> uint64 \<Rightarrow> uint64 \<Rightarrow> ProcessStatus" where
  "snapshot ut lut st lst tot ltot =
     \<lparr>Pid = 7, Name = ''x'', FDSize = 0, VmPeak = 0, VmSize = 2048, VmHWM = 0, VmRSS = 0,
      Threads = 0, Utime = ut, LastUtime = lut, Stime = st, LastStime = lst, TimeTotal = tot,
      LastTimeTotal = ltot\<rparr>"

text \<open>
  Three processes: \<open>pgrep -P 1\<close> reports 2 and 3. When \<open>kids2\<close> holds, \<open>pgrep -P 2\<close>
  reports 3 as well, so that 3 is reached through two parents; when \<open>alive2\<close> does not
  hold, the files of process 2 cannot be read any more.
\<close>

definition env_tree :: "bool \<Rightarrow> bool \<Rightarrow> proc_env" where
  "env_tree kids2 alive2 =
     \<lparr>status_file = (\<lambda>p. if p = 1 \<or> p = 3 \<or> (p = 2 \<and> alive2) then Some status_blob else None),
      stat_file =
        (\<lambda>p. if p = 1 \<or> p = 3 \<or> (p = 2 \<and> alive2) then Some (stat_blob ''50'' ''20'') else None),
      proc_stat = Some (cpu_blob ''100''),
      pgrep =
        (\<lambda>p. if p = 1 then (''2'' @ [CHR 0x0A] @ ''3'' @ [CHR 0x0A], False)
             else if p = 2 \<and> kids2 then (''3'' @ [CHR 0x0A], False)
             else ([], True))\<rparr>"

text \<open>The pids that a walk from \<open>root\<close> comes across: the root, and every pid that
  \<open>getChildrenPids\<close> reports for a pid it has come across.\<close>

inductive discovered :: "proc_env \<Rightarrow> pid \<Rightarrow> pid \<Rightarrow> bool" for env root where
  root: "discovered env root root"
| child: "discovered env root p \<Longrightarrow> getChildrenPids env p = Inr children \<Longrightarrow>
          c \<in> set children \<Longrightarrow> discovered env root c"

(*THEOREMS*)

section \<open>Properties of the size rendering and parsing\<close>

lemma append_B_neq_unit:
  "x @ '' B'' \<noteq> y @ [CHR '' '', u, CHR ''B'']" if "u \<noteq> CHR '' ''"
proof
  assume "x @ '' B'' = y @ [CHR '' '', u, CHR ''B'']"
  then have "rev (x @ '' B'') = rev (y @ [CHR '' '', u, CHR ''B''])"
    by (rule arg_cong)
  with that show False
    by (cases "rev x") auto
qed

lemmas scan_eval =
  parseLabeledSize_def Sscanf_d_def scanUint_def isDigit_def ParseUint_def parse_nat_def
  digit_val_def isSpace_def HasPrefix_def

lemmas format_eval =
  formatSize_def FormatUint_def format_nat.simps digit_char_def

lemma FormatUint_lit:
  "FormatUint 1 = ''1''" "FormatUint 1024 = ''1024''"
  by (simp_all add: FormatUint_def format_nat.simps digit_char_def)

text \<open>
  C10. The thresholds of \<open>formatSize\<close> are strict: a size that is exactly 1024, 1024^2
  or 1024^3 is rendered in the next smaller unit, and a size is rendered in a unit exactly
  when it lies strictly above that unit's boundary and not above the next one.
\<close>

theorem formatSize_boundaries:
  "formatSize 1024 = ''1024 B'' \<and>
   formatSize (1024 * 1024) = ''1024 kB'' \<and>
   formatSize (1024 * 1024 * 1024) = ''1024 mB'' \<and>
   (formatSize sz = FormatUint sz @ '' B'' \<longleftrightarrow> sz \<le> 1024) \<and>
   (formatSize sz = FormatUint (sz div 1024) @ '' kB'' \<longleftrightarrow> 1024 < sz \<and> sz \<le> 1024 * 1024) \<and>
   (formatSize sz = FormatUint (sz div (1024 * 1024)) @ '' mB'' \<longleftrightarrow>
      1024 * 1024 < sz \<and> sz \<le> 1024 * 1024 * 1024) \<and>
   (formatSize sz = FormatUint (sz div (1024 * 1024 * 1024)) @ '' gB'' \<longleftrightarrow>
      1024 * 1024 * 1024 < sz)"
proof -
  have lit: "formatSize 1024 = ''1024 B''" "formatSize (1024 * 1024) = ''1024 kB''"
    "formatSize (1024 * 1024 * 1024) = ''1024 mB''"
    by (simp_all add: formatSize_def FormatUint_lit)
  have neq: "x @ '' B'' \<noteq> y @ '' kB''" "x @ '' B'' \<noteq> y @ '' mB''" "x @ '' B'' \<noteq> y @ '' gB''"
    "y @ '' kB'' \<noteq> x @ '' B''" "y @ '' mB'' \<noteq> x @ '' B''" "y @ '' gB'' \<noteq> x @ '' B''"
    for x y :: string
    using append_B_neq_unit [of "CHR ''k''" x y] append_B_neq_unit [of "CHR ''m''" x y]
      append_B_neq_unit [of "CHR ''g''" x y]
    by (simp_all add: eq_commute [of "y @ _" "x @ _"])
  have le1: "sz \<le> 1024 * 1024" if "sz \<le> 1024"
    using that by (rule order_trans) simp
  have le2: "sz \<le> 1024 * 1024 * 1024" if "sz \<le> 1024 * 1024"
    using that by (rule order_trans) simp
  note les = le1 le2 le2 [OF le1]
  have b: "formatSize sz = FormatUint sz @ '' B'' \<longleftrightarrow> sz \<le> 1024"
    using les by (auto simp: formatSize_def neq not_less)
  have k: "formatSize sz = FormatUint (sz div 1024) @ '' kB'' \<longleftrightarrow> 1024 < sz \<and> sz \<le> 1024 * 1024"
    using les by (auto simp: formatSize_def neq not_less)
  have m: "formatSize sz = FormatUint (sz div (1024 * 1024)) @ '' mB'' \<longleftrightarrow>
      1024 * 1024 < sz \<and> sz \<le> 1024 * 1024 * 1024"
    using les by (auto simp: formatSize_def neq not_less)
  have g: "formatSize sz = FormatUint (sz div (1024 * 1024 * 1024)) @ '' gB'' \<longleftrightarrow>
      1024 * 1024 * 1024 < sz"
    using les by (auto simp: formatSize_def neq not_less)
  from lit b k m g show ?thesis
    by blast
qed

theorem formatSize_boundaries_witness:
  "formatSize 1025 = ''1 kB'' \<and> formatSize 1024 = ''1024 B''"
  using formatSize_boundaries [of 1025] by (simp add: FormatUint_lit)

text \<open>
  C1. The size parser is meant to scale the integer by the unit of its suffix and to reject
  any other suffix. The count returned by \<open>Sscanf\<close> is 1 as soon as the integer is
  stored, whether or not the suffix matched, so the first branch always returns: the value
  comes back unscaled for \<open>kB\<close>, \<open>mB\<close> and \<open>gB\<close>, and an unknown suffix is accepted.
\<close>

theorem parseLabeledSize_ignores_suffix:
  "parseLabeledSize ''5 B'' = Inr 5 \<and>
   parseLabeledSize ''5 kB'' = Inr 5 \<and>
   parseLabeledSize ''5 mB'' = Inr 5 \<and>
   parseLabeledSize ''5 gB'' = Inr 5 \<and>
   parseLabeledSize ''5 xB'' = Inr 5"
  by (simp add: scan_eval)

text \<open>
  C4. Formatting 2048 bytes gives \<open>2 kB\<close>; parsing that back gives 2, not a byte count
  within 1023 of 2048.
\<close>

theorem parse_format_loses_unit:
  "formatSize 2048 = ''2 kB'' \<and> parseLabeledSize (formatSize 2048) = Inr 2"
  by (simp add: format_eval scan_eval)

lemmas proc_eval =
  getProcStatus_def lastStatusOf_def zeroStatus_def parseStatusLine_def TrimSpace_def
  readTimeTotal_def addLine_def Let_def status_blob_def stat_blob_def cpu_blob_def
  env_one_def snapshot_def

lemma first_tick_eval:
  "getProcStatus (env_one ''50'' ''20'' ''100'') 7 [] = Inr (snapshot 50 0 20 0 100 0)"
  by (simp add: proc_eval scan_eval)

lemma same_total_eval:
  "getProcStatus (env_one ''60'' ''20'' ''100'') 7 [snapshot 50 0 20 0 100 0] =
     Inr (snapshot 60 50 20 20 100 100)"
  by (simp add: proc_eval scan_eval)

lemma kernel_only_eval:
  "getProcStatus (env_one ''50'' ''30'' ''200'') 7 [snapshot 50 0 20 0 100 0] =
     Inr (snapshot 50 50 30 20 200 100)"
  by (simp add: proc_eval scan_eval)

lemma decreased_eval:
  "getProcStatus (env_one ''10'' ''5'' ''200'') 7 [snapshot 50 0 20 0 100 0] =
     Inr (snapshot 10 50 5 20 200 100)"
  by (simp add: proc_eval scan_eval)

lemma no_children_eval: "getChildrenPids (env_one ut st tot) p = Inr []"
  by (simp add: getChildrenPids_def env_one_def)

lemma getUsage_one:
  "getProcStatus (env_one ut st tot) 7 prev = Inr s \<Longrightarrow>
   getUsage (Suc d) (env_one ut st tot) 7 prev = Some (Inr [s])"
  by (simp add: no_children_eval)

section \<open>What a snapshot takes from the previous tick\<close>

lemma lastStatusOf_fold:
  "\<forall>s \<in> set prev. Pid s \<noteq> p \<Longrightarrow>
   foldl (\<lambda>lastStatus s. if Pid s = p then s else lastStatus) z prev = z"
  by (induction prev arbitrary: z) auto

lemma lastStatusOf_absent:
  "\<forall>s \<in> set prev. Pid s \<noteq> p \<Longrightarrow> lastStatusOf p prev = zeroStatus"
  by (simp add: lastStatusOf_def lastStatusOf_fold)

lemma parseStatusLine_keeps:
  assumes "parseStatusLine st line = Inr st'"
  shows "Pid st' = Pid st \<and> Utime st' = Utime st \<and> Stime st' = Stime st \<and>
         TimeTotal st' = TimeTotal st \<and> LastUtime st' = LastUtime st \<and>
         LastStime st' = LastStime st \<and> LastTimeTotal st' = LastTimeTotal st"
  using assms
  by (auto simp: parseStatusLine_def Let_def split: if_splits option.splits sum.splits)

lemma parseStatusLines_keeps:
  assumes "parseStatusLines st lines = Inr st'"
  shows "Pid st' = Pid st \<and> Utime st' = Utime st \<and> Stime st' = Stime st \<and>
         TimeTotal st' = TimeTotal st \<and> LastUtime st' = LastUtime st \<and>
         LastStime st' = LastStime st \<and> LastTimeTotal st' = LastTimeTotal st"
  using assms
proof (induction lines arbitrary: st)
  case Nil
  then show ?case by simp
next
  case (Cons line lines)
  then obtain st1 where 1: "parseStatusLine st line = Inr st1"
    and 2: "parseStatusLines st1 lines = Inr st'"
    by (auto split: sum.splits)
  from Cons.IH [OF 2] parseStatusLine_keeps [OF 1] show ?case
    by simp
qed

lemma getProcStatus_Inr:
  assumes "getProcStatus env p prev = Inr s"
  shows "Pid s = p \<and> LastUtime s = Utime (lastStatusOf p prev) \<and>
         LastStime s = Stime (lastStatusOf p prev) \<and>
         LastTimeTotal s = TimeTotal (lastStatusOf p prev) \<and> TimeTotal s \<noteq> 0 \<and>
         status_file env p \<noteq> None \<and> proc_stat env \<noteq> None \<and> stat_file env p \<noteq> None"
proof -
  let ?st0 = "zeroStatus\<lparr>Pid := p, LastUtime := Utime (lastStatusOf p prev),
      LastStime := Stime (lastStatusOf p prev),
      LastTimeTotal := TimeTotal (lastStatusOf p prev)\<rparr>"
  from assms obtain blob where b: "status_file env p = Some blob"
    by (auto simp: getProcStatus_def Let_def split: option.splits)
  from assms b obtain st1 where 1: "parseStatusLines ?st0 (Split blob CHR 0x0A) = Inr st1"
    by (auto simp: getProcStatus_def Let_def split: option.splits sum.splits)
  from assms b 1 obtain cpu where c: "proc_stat env = Some cpu"
    by (auto simp: getProcStatus_def Let_def split: option.splits sum.splits)
  let ?st2 = "st1\<lparr>TimeTotal := readTimeTotal (TimeTotal st1) (Split cpu CHR 0x0A)\<rparr>"
  from assms b 1 c have nz: "TimeTotal ?st2 \<noteq> 0"
    by (auto simp: getProcStatus_def Let_def split: option.splits sum.splits if_splits)
  from assms b 1 c nz obtain sb where sb: "stat_file env p = Some sb"
    by (auto simp: getProcStatus_def Let_def split: option.splits sum.splits if_splits)
  from assms b 1 c nz sb obtain ut st where s: "s = ?st2\<lparr>Utime := ut, Stime := st\<rparr>"
    by (auto simp: getProcStatus_def Let_def split: option.splits sum.splits if_splits)
  from parseStatusLines_keeps [OF 1] s nz b c sb show ?thesis
    by simp
qed

lemma getProcStatus_unreadable:
  "status_file env p = None \<Longrightarrow> getProcStatus env p prev = Inl PanicErr"
  by (simp add: getProcStatus_def Let_def)


section \<open>The CPU percentage\<close>

text \<open>
  C2 (amended). There is no case for a system tick delta of zero: both accessors divide by
  the delta, so for a snapshot whose \<open>TimeTotal\<close> equals its \<open>LastTimeTotal\<close> they raise
  the integer-divide-by-zero panic instead of yielding 0, and they yield a percentage
  exactly when the delta is not zero.
\<close>

theorem CPUUsage_zero_delta:
  "(TimeTotal ps = LastTimeTotal ps \<longrightarrow>
      GetCPUUsageUser ps = Inl PanicDivideByZero \<and> GetCPUUsageKernel ps = Inl PanicDivideByZero) \<and>
   (TimeTotal ps \<noteq> LastTimeTotal ps \<longrightarrow>
      GetCPUUsageUser ps =
        Inr (100 * (Utime ps - LastUtime ps) div (TimeTotal ps - LastTimeTotal ps)) \<and>
      GetCPUUsageKernel ps =
        Inr (100 * (Stime ps - LastStime ps) div (TimeTotal ps - LastTimeTotal ps)))"
  by (simp add: GetCPUUsageUser_def GetCPUUsageKernel_def)

theorem CPUUsage_zero_delta_witness:
  "GetCPUUsageUser (snapshot 60 50 20 20 100 100) = Inl PanicDivideByZero \<and>
   GetCPUUsageKernel (snapshot 60 50 20 20 100 100) = Inl PanicDivideByZero \<and>
   GetCPUUsageUser (snapshot 60 50 20 20 200 100) = Inr 10 \<and>
   GetCPUUsageKernel (snapshot 60 50 20 20 200 100) = Inr 0"
  using CPUUsage_zero_delta [of "snapshot 60 50 20 20 100 100"]
    CPUUsage_zero_delta [of "snapshot 60 50 20 20 200 100"]
  by (simp add: snapshot_def)

text \<open>
  The claim as stated fails: two consecutive snapshots of pid 7 with the same system total
  (100), the second read by \<open>getProcStatus\<close> against the first; its percentage is the
  panic, not 0.
\<close>

theorem zero_delta_counterexample:
  "getProcStatus (env_one ''60'' ''20'' ''100'') 7 [snapshot 50 0 20 0 100 0] =
     Inr (snapshot 60 50 20 20 100 100) \<and>
   TimeTotal (snapshot 60 50 20 20 100 100) = LastTimeTotal (snapshot 60 50 20 20 100 100) \<and>
   GetCPUUsageUser (snapshot 60 50 20 20 100 100) \<noteq> Inr 0 \<and>
   GetCPUUsageUser (snapshot 60 50 20 20 100 100) = Inl PanicDivideByZero"
  by (simp add: same_total_eval) (simp add: snapshot_def GetCPUUsageUser_def)

lemma accumulate_kernel_independent:
  "accumulate acc (map (\<lambda>p. p\<lparr>Stime := f p, LastStime := g p\<rparr>) h) = accumulate acc h"
proof (induction h arbitrary: acc)
  case Nil
  show ?case by simp
next
  case (Cons p h)
  obtain c m k where acc: "acc = (c, m, k)"
    by (cases acc)
  show ?case
    by (simp add: acc Cons.IH GetCPUUsageUser_def split: sum.splits)
qed

text \<open>
  C3 (amended). The percentage that is printed and averaged is \<open>GetCPUUsageUser\<close>: 100
  times the user-mode tick delta divided by the system tick delta, in unsigned 64-bit
  arithmetic. Kernel-mode ticks are not part of it: the report of a history does not change
  when the kernel tick counters of its snapshots are replaced by anything else.
\<close>

theorem CPUUsage_user_only:
  "(TimeTotal ps \<noteq> LastTimeTotal ps \<longrightarrow>
      GetCPUUsageUser ps =
        Inr (100 * (Utime ps - LastUtime ps) div (TimeTotal ps - LastTimeTotal ps))) \<and>
   GetCPUUsageUser (ps\<lparr>Stime := a, LastStime := b\<rparr>) = GetCPUUsageUser ps \<and>
   summarize (map (\<lambda>p. p\<lparr>Stime := f p, LastStime := g p\<rparr>) h) = summarize h"
proof -
  let ?F = "\<lambda>p. p\<lparr>Stime := f p, LastStime := g p\<rparr>"
  have hd: "Name (hd (map ?F h)) = Name (hd h) \<and> Pid (hd (map ?F h)) = Pid (hd h)"
    if "h \<noteq> []"
    using that by (cases h) simp_all
  have "summarize (map ?F h) = summarize h"
    unfolding summarize_def accumulate_kernel_independent
    using hd by (auto split: sum.splits prod.splits)
  then show ?thesis
    by (simp add: GetCPUUsageUser_def)
qed

theorem CPUUsage_user_only_witness:
  "GetCPUUsageUser (snapshot 50 50 30 20 200 100) = Inr 0 \<and>
   GetCPUUsageUser (snapshot 50 50 77 0 200 100) = Inr 0"
  using CPUUsage_user_only [where ps = "snapshot 50 50 30 20 200 100" and a = 77 and b = 0
      and h = "[]" and f = "\<lambda>p. 0" and g = "\<lambda>p. 0"]
  by (simp add: snapshot_def)

text \<open>
  The claim as stated fails: between two ticks pid 7 used 0 user ticks and 10 kernel ticks
  out of 100 system ticks; the claimed percentage is 10, the code's is 0.
\<close>

theorem CPUUsage_kernel_counterexample:
  "getProcStatus (env_one ''50'' ''30'' ''200'') 7 [snapshot 50 0 20 0 100 0] =
     Inr (snapshot 50 50 30 20 200 100) \<and>
   GetCPUUsageUser (snapshot 50 50 30 20 200 100) = Inr 0 \<and>
   (100 * (Utime (snapshot 50 50 30 20 200 100) + Stime (snapshot 50 50 30 20 200 100)
      - LastUtime (snapshot 50 50 30 20 200 100) - LastStime (snapshot 50 50 30 20 200 100))
    div (TimeTotal (snapshot 50 50 30 20 200 100) - LastTimeTotal (snapshot 50 50 30 20 200 100))
    = (10 :: uint64))"
  by (simp add: kernel_only_eval) (simp add: snapshot_def GetCPUUsageUser_def)

text \<open>
  C6 (amended). For a pid that has no snapshot in the previous tick the previous counters
  are those of the zero-valued struct, and the percentage is computed by the same formula
  from them: 100 times the process's user ticks since its start, divided by the system's
  ticks since boot (which \<open>getProcStatus\<close> has checked not to be zero). It is not set to 0.
\<close>

theorem first_observation_percentage:
  assumes "\<forall>s \<in> set prev. Pid s \<noteq> p" and "getProcStatus env p prev = Inr status"
  shows "LastUtime status = 0 \<and> LastStime status = 0 \<and> LastTimeTotal status = 0 \<and>
         GetCPUUsageUser status = Inr (100 * Utime status div TimeTotal status)"
  using getProcStatus_Inr [OF assms(2)] lastStatusOf_absent [OF assms(1)]
  by (simp add: GetCPUUsageUser_def zeroStatus_def)

theorem first_observation_percentage_witness:
  "getProcStatus (env_one ''50'' ''20'' ''100'') 7 [] = Inr (snapshot 50 0 20 0 100 0) \<and>
   LastTimeTotal (snapshot 50 0 20 0 100 0) = 0 \<and>
   GetCPUUsageUser (snapshot 50 0 20 0 100 0) = Inr 50"
  using first_observation_percentage [of "[]" 7 "env_one ''50'' ''20'' ''100''"
      "snapshot 50 0 20 0 100 0"]
  by (simp add: first_tick_eval) (simp add: snapshot_def)

theorem first_observation_counterexample:
  "getProcStatus (env_one ''50'' ''20'' ''100'') 7 [] = Inr (snapshot 50 0 20 0 100 0) \<and>
   GetCPUUsageUser (snapshot 50 0 20 0 100 0) = Inr 50 \<and>
   GetCPUUsageUser (snapshot 50 0 20 0 100 0) \<noteq> Inr 0"
  by (simp add: first_tick_eval) (simp add: snapshot_def GetCPUUsageUser_def)

section \<open>The histories\<close>

lemma appendUsage_nonempty:
  assumes "\<forall>p h. usages p = Some h \<longrightarrow> h \<noteq> []"
  shows "\<forall>p h. appendUsage usages process p = Some h \<longrightarrow> h \<noteq> []"
  using assms by (auto simp: appendUsage_def)

lemma recordUsage_nonempty:
  assumes "\<forall>p h. usages p = Some h \<longrightarrow> h \<noteq> []"
  shows "\<forall>p h. recordUsage usages usage p = Some h \<longrightarrow> h \<noteq> []"
  using assms unfolding recordUsage_def
proof (induction usage arbitrary: usages)
  case Nil
  then show ?case by simp
next
  case (Cons process usage)
  from Cons.IH [OF appendUsage_nonempty [OF Cons.prems]] show ?case
    by simp
qed

lemma runTicks_nonempty:
  assumes "runTicks depth root envs usage usages = Some (Inr (usage', usages'))"
    and "\<forall>p h. usages p = Some h \<longrightarrow> h \<noteq> []"
  shows "\<forall>p h. usages' p = Some h \<longrightarrow> h \<noteq> []"
  using assms
proof (induction envs arbitrary: usage usages)
  case Nil
  then show ?case by simp
next
  case (Cons env envs)
  from Cons.prems(1) obtain u where u: "getUsage depth env root usage = Some (Inr u)"
    and r: "runTicks depth root envs u (recordUsage usages u) = Some (Inr (usage', usages'))"
    by (auto split: option.splits sum.splits)
  from Cons.IH [OF r recordUsage_nonempty [OF Cons.prems(2)]] show ?case .
qed

lemma summarize_nonempty:
  assumes "h \<noteq> []" and "accumulate (0, 0, 0) h = Inr acc"
  shows "\<exists>s. summarize h = Inr s \<and> secondsAlive s = length h"
  using assms by (cases acc) (simp add: summarize_def)

text \<open>
  C9. Every history in the map that reaches the report is non-empty: the map starts empty
  and an entry is only ever written by appending a snapshot. So the report divides by a
  positive length, and once the loop over a history has added up its percentages the two
  averages are computed without a division by zero.
\<close>

theorem histories_nonempty:
  assumes "runTicks depth root envs [] Map.empty = Some (Inr (usage, usages))"
    and "usages p = Some h"
  shows "0 < length h \<and>
         (\<forall>acc. accumulate (0, 0, 0) h = Inr acc \<longrightarrow>
            (\<exists>s. summarize h = Inr s \<and> secondsAlive s = length h))"
proof -
  from runTicks_nonempty [OF assms(1)] assms(2) have "h \<noteq> []"
    by simp
  with summarize_nonempty [of h] show ?thesis
    by simp
qed

lemma run_one_tick:
  "runTicks (Suc 0) 7 [env_one ''50'' ''20'' ''100''] [] Map.empty =
     Some (Inr ([snapshot 50 0 20 0 100 0], [7 \<mapsto> [snapshot 50 0 20 0 100 0]]))"
proof -
  have "Pid (snapshot 50 0 20 0 100 0) = 7"
    by (simp add: snapshot_def)
  then show ?thesis
    by (simp add: getUsage_one [OF first_tick_eval] recordUsage_def appendUsage_def
        del: getUsage.simps)
qed

theorem histories_nonempty_witness:
  "runTicks (Suc 0) 7 [env_one ''50'' ''20'' ''100''] [] Map.empty =
     Some (Inr ([snapshot 50 0 20 0 100 0], [7 \<mapsto> [snapshot 50 0 20 0 100 0]])) \<and>
   0 < length [snapshot 50 0 20 0 100 0] \<and>
   summarize [snapshot 50 0 20 0 100 0] =
     Inr \<lparr>sumName = ''x'', sumPid = 7, secondsAlive = 1, avgCPU = 50, avgMem = ''2 kB'',
          peakMem = ''0 B''\<rparr>"
proof -
  have s: "summarize [snapshot 50 0 20 0 100 0] =
     Inr \<lparr>sumName = ''x'', sumPid = 7, secondsAlive = 1, avgCPU = 50, avgMem = ''2 kB'',
          peakMem = ''0 B''\<rparr>"
    by (simp add: summarize_def snapshot_def GetCPUUsageUser_def format_eval)
  from histories_nonempty [OF run_one_tick, of 7 "[snapshot 50 0 20 0 100 0]"]
  have "0 < length [snapshot 50 0 20 0 100 0]"
    by simp
  with run_one_tick s show ?thesis
    by blast
qed


lemma run_two_ticks:
  "runTicks (Suc 0) 7 [env_one ''50'' ''20'' ''100'', env_one ''10'' ''5'' ''200''] []
     Map.empty =
   Some (Inr ([snapshot 10 50 5 20 200 100],
              [7 \<mapsto> [snapshot 50 0 20 0 100 0, snapshot 10 50 5 20 200 100]]))"
proof -
  have "Pid (snapshot 50 0 20 0 100 0) = 7" "Pid (snapshot 10 50 5 20 200 100) = 7"
    by (simp_all add: snapshot_def)
  then show ?thesis
    by (simp add: getUsage_one [OF first_tick_eval] getUsage_one [OF decreased_eval]
        recordUsage_def appendUsage_def del: getUsage.simps)
qed

text \<open>
  C7 (amended). The sampler does not detect the reuse of a pid. A snapshot is always
  appended to the history that its pid already has, whatever its counters are; the previous
  counters of a snapshot are always those of the last snapshot with the same pid in the
  previous tick; and the percentage is computed by the same formula in unsigned 64-bit
  arithmetic, so that for a user tick counter that has decreased the subtraction wraps
  around modulo \<open>2 ^ 64\<close>.
\<close>

theorem no_pid_reuse_detection:
  "(usages (Pid s) = Some h \<longrightarrow> appendUsage usages s (Pid s) = Some (h @ [s])) \<and>
   (getProcStatus env p prev = Inr s \<longrightarrow>
      LastUtime s = Utime (lastStatusOf p prev) \<and> LastStime s = Stime (lastStatusOf p prev) \<and>
      LastTimeTotal s = TimeTotal (lastStatusOf p prev)) \<and>
   (Utime s < LastUtime s \<and> TimeTotal s \<noteq> LastTimeTotal s \<longrightarrow>
      GetCPUUsageUser s =
        Inr (100 * (Utime s - LastUtime s) div (TimeTotal s - LastTimeTotal s)) \<and>
      unat (Utime s - LastUtime s) = 2 ^ 64 - (unat (LastUtime s) - unat (Utime s)))"
proof -
  have wrap: "unat (Utime s - LastUtime s) = 2 ^ 64 - (unat (LastUtime s) - unat (Utime s))"
    if "Utime s < LastUtime s"
  proof -
    from that have lt: "unat (Utime s) < unat (LastUtime s)"
      by (simp add: word_less_nat_alt)
    have "unat (LastUtime s) < 2 ^ 64"
      using unsigned_less [of "LastUtime s", where 'a = nat] by simp
    with lt show ?thesis
      by (simp add: unat_sub_if_size word_size)
  qed
  show ?thesis
    using getProcStatus_Inr [of env p prev s] wrap
    by (auto simp: appendUsage_def GetCPUUsageUser_def)
qed

theorem no_pid_reuse_detection_witness:
  "appendUsage [7 \<mapsto> [snapshot 50 0 20 0 100 0]] (snapshot 10 50 5 20 200 100) 7 =
     Some [snapshot 50 0 20 0 100 0, snapshot 10 50 5 20 200 100] \<and>
   LastUtime (snapshot 10 50 5 20 200 100) = Utime (snapshot 50 0 20 0 100 0) \<and>
   GetCPUUsageUser (snapshot 10 50 5 20 200 100) = Inr 184467440737095476"
  using no_pid_reuse_detection [where s = "snapshot 10 50 5 20 200 100"
      and usages = "[7 \<mapsto> [snapshot 50 0 20 0 100 0]]" and h = "[snapshot 50 0 20 0 100 0]"
      and env = "env_one ''10'' ''5'' ''200''" and p = 7 and prev = "[snapshot 50 0 20 0 100 0]"]
    decreased_eval
  by (simp add: snapshot_def lastStatusOf_def)

text \<open>
  The claim as stated fails: pid 7 is seen with 50 user ticks and, one tick later, with 10.
  The history of pid 7 then holds both snapshots, and the percentage of the second one is
  the wrapped value 184467440737095476, not 0.
\<close>

theorem pid_reuse_counterexample:
  "runTicks (Suc 0) 7 [env_one ''50'' ''20'' ''100'', env_one ''10'' ''5'' ''200''] []
     Map.empty =
   Some (Inr ([snapshot 10 50 5 20 200 100],
              [7 \<mapsto> [snapshot 50 0 20 0 100 0, snapshot 10 50 5 20 200 100]])) \<and>
   Utime (snapshot 10 50 5 20 200 100) < LastUtime (snapshot 10 50 5 20 200 100) \<and>
   GetCPUUsageUser (snapshot 10 50 5 20 200 100) = Inr 184467440737095476"
proof -
  have "Utime (snapshot 10 50 5 20 200 100) < LastUtime (snapshot 10 50 5 20 200 100)"
    "GetCPUUsageUser (snapshot 10 50 5 20 200 100) = Inr 184467440737095476"
    by (simp_all add: snapshot_def GetCPUUsageUser_def)
  with run_two_ticks show ?thesis
    by blast
qed


section \<open>The walk\<close>

lemma getUsage_children_each:
  assumes "getUsage_children depth env children prev acc = Some (Inr ss)"
    and "c \<in> set children"
  shows "\<exists>cs. getUsage depth env c prev = Some (Inr cs)"
  using assms
proof (induction children arbitrary: acc)
  case Nil
  then show ?case by simp
next
  case (Cons child children)
  from Cons.prems(1) obtain ss1 where 1: "getUsage depth env child prev = Some (Inr ss1)"
    and 2: "getUsage_children depth env children prev (acc @ ss1) = Some (Inr ss)"
    by (auto split: option.splits sum.splits)
  show ?case
  proof (cases "c = child")
    case True
    with 1 show ?thesis by blast
  next
    case False
    with Cons.prems(2) have "c \<in> set children" by simp
    from Cons.IH [OF 2 this] show ?thesis .
  qed
qed

lemma getUsage_Inr_cases:
  assumes "getUsage depth env p prev = Some (Inr ss)"
  obtains d status children cs where "depth = Suc d"
    and "getProcStatus env p prev = Inr status"
    and "getChildrenPids env p = Inr children"
    and "getUsage_children d env children prev [] = Some (Inr cs)"
  using assms
  by (cases depth) (auto split: sum.splits option.splits)

lemma discovered_walked:
  assumes "discovered env root p"
    and "getUsage depth env root prev = Some (Inr ss)"
  shows "\<exists>d ss'. getUsage d env p prev = Some (Inr ss')"
  using assms
proof (induction rule: discovered.induct)
  case root
  then show ?case by blast
next
  case (child p children c)
  from child.IH [OF child.prems] obtain d ss' where "getUsage d env p prev = Some (Inr ss')"
    by blast
  then obtain d' cs where "getUsage_children d' env children prev [] = Some (Inr cs)"
    using child.hyps(2) by (elim getUsage_Inr_cases) simp
  from getUsage_children_each [OF this child.hyps(3)] show ?case
    by blast
qed

lemma getProcStatus_needs_files:
  assumes "status_file env p = None \<or> stat_file env p = None"
  shows "\<exists>e. getProcStatus env p prev = Inl e"
proof (cases "getProcStatus env p prev")
  case (Inl e)
  then show ?thesis by blast
next
  case (Inr s)
  from getProcStatus_Inr [OF Inr] assms show ?thesis
    by auto
qed

text \<open>
  C5 (amended). A failure to read the per-process files of a pid is not swallowed:
  \<open>getProcStatus\<close> panics. When the walk comes across such a pid, no depth of recursion
  makes \<open>getUsage\<close> return statuses: the tick yields nothing for any pid, and the sampling
  loop ends with it instead of going on to the report. When the pid is the root, the walk
  returns the panic of the failed read at once.
\<close>

theorem read_failure_is_fatal:
  assumes "discovered env root p"
    and "status_file env p = None \<or> stat_file env p = None"
  shows "(\<exists>e. getProcStatus env p prev = Inl e) \<and>
         getUsage depth env root prev \<noteq> Some (Inr statuses) \<and>
         runTicks depth root (env # envs) prev usages \<noteq> Some (Inr r) \<and>
         (p = root \<and> status_file env p = None \<longrightarrow>
            getUsage (Suc depth) env root prev = Some (Inl PanicErr))"
proof -
  from getProcStatus_needs_files [OF assms(2)]
  obtain e where e: "getProcStatus env p prev = Inl e"
    by blast
  have no: "getUsage depth env root prev \<noteq> Some (Inr ss)" for ss
  proof
    assume "getUsage depth env root prev = Some (Inr ss)"
    from discovered_walked [OF assms(1) this]
    obtain d ss' where "getUsage d env p prev = Some (Inr ss')"
      by blast
    with e show False
      by (elim getUsage_Inr_cases) simp
  qed
  have "runTicks depth root (env # envs) prev usages \<noteq> Some (Inr r)"
    using no by (auto split: option.splits sum.splits)
  moreover have "getUsage (Suc depth) env root prev = Some (Inl PanicErr)"
    if "p = root" "status_file env p = None"
    using that by (simp add: getProcStatus_unreadable)
  ultimately show ?thesis
    using e no by blast
qed

lemma tree_status_eval:
  "p = 1 \<or> p = 3 \<or> (p = 2 \<and> alive2) \<Longrightarrow>
   getProcStatus (env_tree kids2 alive2) p [] = Inr ((snapshot 50 0 20 0 100 0)\<lparr>Pid := p\<rparr>)"
  by (simp add: getProcStatus_def lastStatusOf_def zeroStatus_def parseStatusLine_def
      TrimSpace_def readTimeTotal_def addLine_def Let_def status_blob_def stat_blob_def
      cpu_blob_def snapshot_def env_tree_def scan_eval)

lemma tree_children_eval:
  "getChildrenPids (env_tree kids2 alive2) 1 = Inr [2, 3]"
  "getChildrenPids (env_tree True alive2) 2 = Inr [3]"
  "getChildrenPids (env_tree False alive2) 2 = Inr []"
  "getChildrenPids (env_tree kids2 alive2) 3 = Inr []"
  by (simp_all add: getChildrenPids_def env_tree_def Atoi_def isDigit_def parse_nat_def
      digit_val_def)

lemma tree_gone_eval: "getProcStatus (env_tree kids2 False) 2 prev = Inl PanicErr"
  by (rule getProcStatus_unreadable) (simp add: env_tree_def)

lemma walk_gone_eval: "getUsage (Suc (Suc 0)) (env_tree False False) 1 [] = Some (Inl PanicErr)"
  by (simp add: tree_status_eval tree_children_eval tree_gone_eval)

theorem read_failure_is_fatal_witness:
  "getProcStatus (env_tree False False) 2 [] = Inl PanicErr \<and>
   getUsage (Suc (Suc 0)) (env_tree False False) 1 [] = Some (Inl PanicErr) \<and>
   getUsage (Suc 0) (env_tree False False) 2 [] = Some (Inl PanicErr)"
proof -
  have s: "status_file (env_tree False False) 2 = None"
    by (simp add: env_tree_def)
  have d: "discovered (env_tree False False) 1 2"
    by (rule discovered.child [OF discovered.root tree_children_eval(1)]) simp
  have r: "discovered (env_tree False False) 2 2"
    by (rule discovered.root)
  from read_failure_is_fatal [OF d disjI1 [OF s], of "[]" "Suc (Suc 0)"]
  have "getUsage (Suc (Suc 0)) (env_tree False False) 1 [] \<noteq> Some (Inr statuses)" for statuses
    by blast
  moreover from read_failure_is_fatal [OF r disjI1 [OF s], of "[]" 0] s
  have "getUsage (Suc 0) (env_tree False False) 2 [] = Some (Inl PanicErr)"
    by blast
  ultimately show ?thesis
    using tree_gone_eval [of False "[]"] walk_gone_eval by blast
qed

text \<open>
  The claim as stated fails: process 2 has exited after \<open>pgrep\<close> listed it. Processes 1
  and 3 can still be read, but the tick panics and the run ends without any history.
\<close>

theorem read_failure_counterexample:
  "getProcStatus (env_tree False False) 1 [] = Inr ((snapshot 50 0 20 0 100 0)\<lparr>Pid := 1\<rparr>) \<and>
   getProcStatus (env_tree False False) 3 [] = Inr ((snapshot 50 0 20 0 100 0)\<lparr>Pid := 3\<rparr>) \<and>
   getProcStatus (env_tree False False) 2 [] = Inl PanicErr \<and>
   getUsage (Suc (Suc 0)) (env_tree False False) 1 [] = Some (Inl PanicErr) \<and>
   runTicks (Suc (Suc 0)) 1 [env_tree False False] [] Map.empty = Some (Inl PanicErr)"
  by (simp add: tree_status_eval tree_gone_eval walk_gone_eval del: getUsage.simps)

text \<open>
  C8. The recursive walk has no guard against a pid that is reported under two parents:
  with 3 reported as a child of both 1 and 2, one walk lists pid 3 twice, and the tick
  appends two snapshots to the history of pid 3.
\<close>

theorem walk_lists_pid_twice:
  "getUsage (Suc (Suc (Suc 0))) (env_tree True True) 1 [] =
     Some (Inr (map (\<lambda>p. (snapshot 50 0 20 0 100 0)\<lparr>Pid := p\<rparr>) [1, 2, 3, 3])) \<and>
   map_option length
     (recordUsage Map.empty (map (\<lambda>p. (snapshot 50 0 20 0 100 0)\<lparr>Pid := p\<rparr>) [1, 2, 3, 3]) 3) =
     Some 2"
  by (simp add: tree_status_eval tree_children_eval recordUsage_def appendUsage_def)

end
